theory Spec2Isabelle
  imports Main "HOL-Library.Sublist"
begin

section \<open>Errors\<close>

text \<open>
  Every \<^verbatim>\<open>throw\<close> of the sources is a value of this type.
  \<^item> \<open>CodeScanStoppedError\<close> is the class thrown by \<^verbatim>\<open>throwIfCancelled\<close>;
  \<^item> \<open>Error msg\<close> is \<^verbatim>\<open>new Error(msg)\<close>;
  \<^item> \<open>ClientFailure\<close> is a rejection of an awaited call of the service client;
  \<^item> \<open>FsFailure\<close> is what \<^verbatim>\<open>readFileSync\<close> throws on a file it cannot read;
  \<^item> \<open>SyntaxError\<close> is what \<^verbatim>\<open>JSON.parse\<close> throws on a malformed document.
\<close>

datatype error =
    CodeScanStoppedError
  | Error string
  | ClientFailure string
  | FsFailure string
  | SyntaxError

section \<open>The scan status poller: \<^verbatim>\<open>pollScanJobStatus\<close>\<close>

text \<open>
  The poller reads two things from outside. Both are parameters of the model.
  \<^item> \<open>isCancelling\<close> is the history of the flag \<^verbatim>\<open>codeScanState.isCancelling()\<close>. The
    function runs on one thread, so the flag can only change while the poller is
    suspended in an \<^verbatim>\<open>await\<close>. Instant \<open>k\<close> is the moment after the \<open>k\<close>-th await of
    the run has resumed: iteration \<open>n\<close> of the loop starts at instant \<open>2 * n\<close>, its status
    query resumes at instant \<open>2 * n + 1\<close>, and its sleep resumes at instant \<open>2 * n + 2\<close>,
    which is the start of iteration \<open>n + 1\<close>.
  \<^item> \<open>getCodeScan jobId n\<close> is the outcome of the \<open>n\<close>-th call (counted from 0) of
    \<^verbatim>\<open>client.getCodeScan({ jobId })\<close>: the status it reports, or the error of a rejected
    call.

  The constants \<^verbatim>\<open>codeScanJobPollingIntervalSeconds\<close> and \<^verbatim>\<open>codeScanJobTimeoutSeconds\<close> come
  from \<^verbatim>\<open>models/constants\<close> and are parameters (\<open>interval\<close>, \<open>timeout\<close>).

  The result holds the durations, in milliseconds, of the calls of \<^verbatim>\<open>sleep\<close> in the order
  they were made, and then what the function returned or threw. A run of the loop
  that never ends is the value \<open>None\<close>.
\<close>

definition throwIfCancelled :: "(nat \<Rightarrow> bool) \<Rightarrow> nat \<Rightarrow> error + unit" where
  "throwIfCancelled isCancelling k =
     (if isCancelling k then Inl CodeScanStoppedError else Inr ())"

partial_function (option) pollLoop ::
  "(nat \<Rightarrow> bool) \<Rightarrow> (string \<Rightarrow> nat \<Rightarrow> error + string) \<Rightarrow> int \<Rightarrow> int \<Rightarrow> string
     \<Rightarrow> nat \<Rightarrow> int \<Rightarrow> int list \<Rightarrow> (int list \<times> (error + string)) option" where
  "pollLoop isCancelling getCodeScan interval timeout jobId n timer slept =
     (case throwIfCancelled isCancelling (2 * n) of
        Inl e \<Rightarrow> Some (slept, Inl e)
      | Inr _ \<Rightarrow>
         (case getCodeScan jobId n of
            Inl e \<Rightarrow> Some (slept, Inl e)
          | Inr status \<Rightarrow>
              if status \<noteq> ''Pending'' then Some (slept, Inr status)
              else
               (case throwIfCancelled isCancelling (2 * n + 1) of
                  Inl e \<Rightarrow> Some (slept, Inl e)
                | Inr _ \<Rightarrow>
                    let slept' = slept @ [interval * 1000];
                        timer' = timer + interval
                    in if timer' > timeout
                       then Some (slept', Inl (Error ''Scan job timeout.''))
                       else pollLoop isCancelling getCodeScan interval timeout jobId
                              (Suc n) timer' slept')))"

definition pollScanJobStatus ::
  "(nat \<Rightarrow> bool) \<Rightarrow> (string \<Rightarrow> nat \<Rightarrow> error + string) \<Rightarrow> int \<Rightarrow> int \<Rightarrow> string
     \<Rightarrow> (int list \<times> (error + string)) option" where
  "pollScanJobStatus isCancelling getCodeScan interval timeout jobId =
     pollLoop isCancelling getCodeScan interval timeout jobId 0 0 []"

declare pollLoop.simps [code]

subsection \<open>Sample runs\<close>

text \<open>The flag is never set.\<close>

definition neverCancelled :: "nat \<Rightarrow> bool" where
  "neverCancelled k = False"

text \<open>The service answers Pending, Pending, Completed.\<close>

definition twicePending :: "string \<Rightarrow> nat \<Rightarrow> error + string" where
  "twicePending jobId n = (if n < 2 then Inr ''Pending'' else Inr ''Completed'')"

text \<open>The service answers Pending for ever.\<close>

definition alwaysPending :: "string \<Rightarrow> nat \<Rightarrow> error + string" where
  "alwaysPending jobId n = Inr ''Pending''"

text \<open>The flag is set while the poller is in its third sleep: it is true from instant 6 on.\<close>

definition cancelledInThirdSleep :: "nat \<Rightarrow> bool" where
  "cancelledInThirdSleep k = (6 \<le> k)"

text \<open>The flag is set while the poller waits for its second status answer.\<close>

definition cancelledInSecondQuery :: "nat \<Rightarrow> bool" where
  "cancelledInSecondQuery k = (3 \<le> k)"

section \<open>The result aggregator: \<^verbatim>\<open>listScanResults\<close> and \<^verbatim>\<open>mapToAggregatedList\<close>\<close>

subsection \<open>Data\<close>

text \<open>
  The interfaces \<^verbatim>\<open>RawCodeScanIssue\<close> and \<^verbatim>\<open>AggregatedCodeScanIssue\<close> are declared in
  \<^verbatim>\<open>models/model\<close>. The records below have the fields that \<^verbatim>\<open>mapToAggregatedList\<close> reads
  and writes. The recommendation and the suggested fixes are only passed through, so
  their types are the parameters \<open>'r\<close> and \<open>'s\<close>. Line numbers are integers.
\<close>

record Description =
  "text" :: string

record ('r, 's) Remediation =
  recommendation :: 'r
  suggestedFixes :: 's

record ('r, 's) RawCodeScanIssue =
  filePath :: string
  startLine :: int
  endLine :: int
  title :: string
  description :: Description
  detectorId :: string
  detectorName :: string
  findingId :: string
  ruleId :: "string option"
  relatedVulnerabilities :: "string list"
  severity :: string
  remediation :: "('r, 's) Remediation"

record ('r, 's) CodeScanIssue =
  startLine :: int
  endLine :: int
  comment :: string
  title :: string
  description :: Description
  detectorId :: string
  detectorName :: string
  findingId :: string
  ruleId :: "string option"
  relatedVulnerabilities :: "string list"
  severity :: string
  recommendation :: 'r
  suggestedFixes :: 's

record ('r, 's) AggregatedCodeScanIssue =
  filePath :: string
  issues :: "('r, 's) CodeScanIssue list"

subsection \<open>The runtime: strings, the insertion-ordered Map, the file system\<close>

text \<open>
  \<^verbatim>\<open>String.prototype.trim\<close> on strings of 8-bit characters: it strips white space and line
  terminators (tab, line feed, vertical tab, form feed, carriage return, space,
  no-break space) from both ends.
\<close>

definition isWhiteSpace :: "char \<Rightarrow> bool" where
  "isWhiteSpace c = (c \<in> set [CHR 0x09, CHR 0x0A, CHR 0x0B, CHR 0x0C, CHR 0x0D, CHR 0x20, CHR 0xA0])"

definition trim :: "string \<Rightarrow> string" where
  "trim s = rev (dropWhile isWhiteSpace (rev (dropWhile isWhiteSpace s)))"

text \<open>
  A JavaScript \<^verbatim>\<open>Map\<close> iterates in the order in which its keys were first inserted, and
  \<^verbatim>\<open>set\<close> on a key that is present keeps the key's place. It is an association list
  with one entry for each key.
\<close>

type_synonym ('k, 'v) jsMap = "('k \<times> 'v) list"

definition mapHas :: "('k, 'v) jsMap \<Rightarrow> 'k \<Rightarrow> bool" where
  "mapHas m k = (map_of m k \<noteq> None)"

definition mapGet :: "('k, 'v) jsMap \<Rightarrow> 'k \<Rightarrow> 'v option" where
  "mapGet m k = map_of m k"

fun mapSet :: "('k, 'v) jsMap \<Rightarrow> 'k \<Rightarrow> 'v \<Rightarrow> ('k, 'v) jsMap" where
  "mapSet [] k v = [(k, v)]"
| "mapSet ((k', v') # m) k v = (if k' = k then (k, v) # m else (k', v') # mapSet m k v)"

text \<open>
  The file system at aggregation time says, for each path, whether something exists
  there and of which kind. \<^verbatim>\<open>statSync\<close> throws on a path where nothing exists.
\<close>

datatype fileKind = RegularFile | Directory | OtherKind

type_synonym fileSystem = "string \<Rightarrow> fileKind option"

definition existsSync :: "fileSystem \<Rightarrow> string \<Rightarrow> bool" where
  "existsSync fs p = (fs p \<noteq> None)"

definition statSync :: "fileSystem \<Rightarrow> string \<Rightarrow> error + fileKind" where
  "statSync fs p = (case fs p of None \<Rightarrow> Inl (FsFailure p) | Some kind \<Rightarrow> Inr kind)"

definition isFile :: "fileKind \<Rightarrow> bool" where
  "isFile kind = (kind = RegularFile)"

subsection \<open>\<^verbatim>\<open>mapToAggregatedList\<close>\<close>

text \<open>
  The body of the first \<^verbatim>\<open>forEach\<close> (lines 55 to 67): the issue is appended to the list
  stored under its file path, or a new list is stored.
\<close>

definition addIssue ::
  "(string, ('r, 's) RawCodeScanIssue list) jsMap \<Rightarrow> ('r, 's) RawCodeScanIssue
     \<Rightarrow> (string, ('r, 's) RawCodeScanIssue list) jsMap" where
  "addIssue codeScanIssueMap issue =
     (if mapHas codeScanIssueMap (RawCodeScanIssue.filePath issue) then
        (case mapGet codeScanIssueMap (RawCodeScanIssue.filePath issue) of
           None \<Rightarrow> mapSet codeScanIssueMap (RawCodeScanIssue.filePath issue) [issue]
         | Some list \<Rightarrow> mapSet codeScanIssueMap (RawCodeScanIssue.filePath issue) (list @ [issue]))
      else mapSet codeScanIssueMap (RawCodeScanIssue.filePath issue) [issue])"

fun groupIssues ::
  "(string, ('r, 's) RawCodeScanIssue list) jsMap \<Rightarrow> ('r, 's) RawCodeScanIssue list
     \<Rightarrow> (string, ('r, 's) RawCodeScanIssue list) jsMap" where
  "groupIssues codeScanIssueMap [] = codeScanIssueMap"
| "groupIssues codeScanIssueMap (issue # rest) = groupIssues (addIssue codeScanIssueMap issue) rest"

text \<open>The function mapped over a file's issues (lines 74 to 90).\<close>

definition toCodeScanIssue :: "('r, 's) RawCodeScanIssue \<Rightarrow> ('r, 's) CodeScanIssue" where
  "toCodeScanIssue issue =
     \<lparr> CodeScanIssue.startLine =
         (if RawCodeScanIssue.startLine issue - 1 \<ge> 0 then RawCodeScanIssue.startLine issue - 1 else 0),
       CodeScanIssue.endLine = RawCodeScanIssue.endLine issue,
       CodeScanIssue.comment =
         trim (RawCodeScanIssue.title issue) @ '': '' @ trim (text (RawCodeScanIssue.description issue)),
       CodeScanIssue.title = RawCodeScanIssue.title issue,
       CodeScanIssue.description = RawCodeScanIssue.description issue,
       CodeScanIssue.detectorId = RawCodeScanIssue.detectorId issue,
       CodeScanIssue.detectorName = RawCodeScanIssue.detectorName issue,
       CodeScanIssue.findingId = RawCodeScanIssue.findingId issue,
       CodeScanIssue.ruleId = RawCodeScanIssue.ruleId issue,
       CodeScanIssue.relatedVulnerabilities = RawCodeScanIssue.relatedVulnerabilities issue,
       CodeScanIssue.severity = RawCodeScanIssue.severity issue,
       CodeScanIssue.recommendation = Remediation.recommendation (RawCodeScanIssue.remediation issue),
       CodeScanIssue.suggestedFixes = Remediation.suggestedFixes (RawCodeScanIssue.remediation issue) \<rparr>"

text \<open>
  The second \<^verbatim>\<open>forEach\<close> (lines 69 to 94) walks the whole map in insertion order.
  \<open>pathJoin\<close> is \<^verbatim>\<open>path.join\<close> of the Node runtime, a parameter.
\<close>

fun aggregateIssues ::
  "(string list \<Rightarrow> string) \<Rightarrow> fileSystem \<Rightarrow> string
     \<Rightarrow> (string, ('r, 's) RawCodeScanIssue list) jsMap
     \<Rightarrow> ('r, 's) AggregatedCodeScanIssue list
     \<Rightarrow> error + ('r, 's) AggregatedCodeScanIssue list" where
  "aggregateIssues pathJoin fs projectPath [] aggregatedCodeScanIssueList =
     Inr aggregatedCodeScanIssueList"
| "aggregateIssues pathJoin fs projectPath ((key, rawIssues) # rest) aggregatedCodeScanIssueList =
     (let resolved = pathJoin [projectPath, ''..'', key] in
      if existsSync fs resolved then
        (case statSync fs resolved of
           Inl e \<Rightarrow> Inl e
         | Inr stats \<Rightarrow>
             if isFile stats then
               aggregateIssues pathJoin fs projectPath rest
                 (aggregatedCodeScanIssueList @
                    [\<lparr> AggregatedCodeScanIssue.filePath = resolved,
                       AggregatedCodeScanIssue.issues = map toCodeScanIssue rawIssues \<rparr>])
             else aggregateIssues pathJoin fs projectPath rest aggregatedCodeScanIssueList)
      else aggregateIssues pathJoin fs projectPath rest aggregatedCodeScanIssueList)"

text \<open>
  \<open>parse\<close> is \<^verbatim>\<open>JSON.parse\<close> read at the type \<^verbatim>\<open>RawCodeScanIssue[]\<close>, a parameter; \<open>None\<close> is
  a document it rejects. The function updates the map and the list it is given; the
  model returns both.
\<close>

definition mapToAggregatedList ::
  "(string \<Rightarrow> ('r, 's) RawCodeScanIssue list option) \<Rightarrow> (string list \<Rightarrow> string) \<Rightarrow> fileSystem
     \<Rightarrow> (string, ('r, 's) RawCodeScanIssue list) jsMap
     \<Rightarrow> ('r, 's) AggregatedCodeScanIssue list \<Rightarrow> string \<Rightarrow> string
     \<Rightarrow> error + ((string, ('r, 's) RawCodeScanIssue list) jsMap \<times> ('r, 's) AggregatedCodeScanIssue list)" where
  "mapToAggregatedList parse pathJoin fs codeScanIssueMap aggregatedCodeScanIssueList json projectPath =
     (case parse json of
        None \<Rightarrow> Inl SyntaxError
      | Some codeScanIssues \<Rightarrow>
          let codeScanIssueMap' = groupIssues codeScanIssueMap codeScanIssues in
          (case aggregateIssues pathJoin fs projectPath codeScanIssueMap' aggregatedCodeScanIssueList of
             Inl e \<Rightarrow> Inl e
           | Inr aggregatedCodeScanIssueList' \<Rightarrow> Inr (codeScanIssueMap', aggregatedCodeScanIssueList')))"

subsection \<open>\<^verbatim>\<open>listScanResults\<close>\<close>

text \<open>
  A response of \<^verbatim>\<open>listCodeScanFindings\<close> carries its findings, a JSON document, under
  one of two field names. \<open>collection jobId schema\<close> is what the paginated retrieval
  (\<^verbatim>\<open>pageableToCollection\<close>, not part of these sources) yields once flattened: all the
  responses in order, or the error of a failed request.
\<close>

datatype response = CodeScanFindings string | CodeAnalysisFindings string

fun findingsOf :: "response \<Rightarrow> string" where
  "findingsOf (CodeScanFindings json) = json"
| "findingsOf (CodeAnalysisFindings json) = json"

fun forEachIssues ::
  "(string \<Rightarrow> ('r, 's) RawCodeScanIssue list option) \<Rightarrow> (string list \<Rightarrow> string) \<Rightarrow> fileSystem
     \<Rightarrow> string \<Rightarrow> (string, ('r, 's) RawCodeScanIssue list) jsMap
     \<Rightarrow> ('r, 's) AggregatedCodeScanIssue list \<Rightarrow> string list
     \<Rightarrow> error + ((string, ('r, 's) RawCodeScanIssue list) jsMap \<times> ('r, 's) AggregatedCodeScanIssue list)" where
  "forEachIssues parse pathJoin fs projectPath codeScanIssueMap aggregatedCodeScanIssueList [] =
     Inr (codeScanIssueMap, aggregatedCodeScanIssueList)"
| "forEachIssues parse pathJoin fs projectPath codeScanIssueMap aggregatedCodeScanIssueList (issue # rest) =
     (case mapToAggregatedList parse pathJoin fs codeScanIssueMap aggregatedCodeScanIssueList
             issue projectPath of
        Inl e \<Rightarrow> Inl e
      | Inr (codeScanIssueMap', aggregatedCodeScanIssueList') \<Rightarrow>
          forEachIssues parse pathJoin fs projectPath codeScanIssueMap' aggregatedCodeScanIssueList' rest)"

definition listScanResults ::
  "(string \<Rightarrow> ('r, 's) RawCodeScanIssue list option) \<Rightarrow> (string list \<Rightarrow> string) \<Rightarrow> fileSystem
     \<Rightarrow> (string \<Rightarrow> string \<Rightarrow> error + response list)
     \<Rightarrow> string \<Rightarrow> string \<Rightarrow> string
     \<Rightarrow> error + ('r, 's) AggregatedCodeScanIssue list" where
  "listScanResults parse pathJoin fs collection jobId codeScanFindingsSchema projectPath =
     (case collection jobId codeScanFindingsSchema of
        Inl e \<Rightarrow> Inl e
      | Inr responses \<Rightarrow>
         (case forEachIssues parse pathJoin fs projectPath [] [] (map findingsOf responses) of
            Inl e \<Rightarrow> Inl e
          | Inr (codeScanIssueMap, aggregatedCodeScanIssueList) \<Rightarrow> Inr aggregatedCodeScanIssueList))"

section \<open>The upload preparer and the artifact uploader\<close>

text \<open>
  \<^verbatim>\<open>Truncation\<close> is declared with the dependency graph; the preparer reads its
  \<^verbatim>\<open>zipFilePath\<close>. The request and the response of \<^verbatim>\<open>createUploadUrl\<close> have the fields that
  the handler writes and reads. \<^verbatim>\<open>ArtifactMap\<close> is an object from artifact kinds to upload ids.
\<close>

record Truncation =
  zipFilePath :: string

record CreateUploadUrlRequest =
  contentMd5 :: string
  artifactType :: string

record CreateUploadUrlResponse =
  uploadId :: string
  uploadUrl :: string
  requestHeaders :: "(string \<times> string) list"

type_synonym ArtifactMap = "(string \<times> string) list"

text \<open>
  Every request that leaves the process is appended to a log of network calls, which
  the functions below take and return.
\<close>

datatype networkCall =
    CreateUploadUrlCall CreateUploadUrlRequest
  | PutCall string string "(string \<times> string) list"

text \<open>
  What the storage endpoint does with a PUT: the transfer fails in the network, or the
  endpoint answers with a status and a status text, which is a success or not.
\<close>

datatype putOutcome =
    NetworkError string
  | NonSuccess nat string
  | Success nat string

text \<open>
  Modelled from the spec: \<^verbatim>\<open>request.fetch('PUT', url, ...).response\<close> of \<^verbatim>\<open>common/request\<close>,
  which is not part of these sources. The spec counts a network error and a non-success
  response of the storage endpoint as failures of the transfer: the promise rejects
  with the underlying error for both, and resolves with the status and status text of a
  success response.
\<close>

fun requestFetchResponse :: "putOutcome \<Rightarrow> error + (nat \<times> string)" where
  "requestFetchResponse (NetworkError msg) = Inl (ClientFailure msg)"
| "requestFetchResponse (NonSuccess status statusText) = Inl (ClientFailure statusText)"
| "requestFetchResponse (Success status statusText) = Inr (status, statusText)"

definition uploadFailedMessage :: string where
  "uploadFailedMessage =
     ''Amazon Q is unable to upload workspace artifacts to Amazon S3 for security scans. '' @
     ''For more information, see the [Amazon Q documentation]'' @
     ''(https://docs.aws.amazon.com/amazonq/latest/qdeveloper-ug/security_iam_manage-access-with-policies.html)'' @
     '' or contact your network or organization administrator.''"

text \<open>
  \<open>readFileSync\<close> gives the bytes of a file, or \<open>None\<close> where the call throws. \<open>storage\<close>
  is the endpoint: the outcome of a PUT of a body with headers to a URL. In
  \<^verbatim>\<open>uploadArtifactToS3\<close> the file is read inside the \<^verbatim>\<open>try\<close> block, so a failed read is
  caught like a failed transfer.
\<close>

definition uploadArtifactToS3 ::
  "(string \<Rightarrow> string option) \<Rightarrow> (string \<Rightarrow> string \<Rightarrow> (string \<times> string) list \<Rightarrow> putOutcome)
     \<Rightarrow> string \<Rightarrow> CreateUploadUrlResponse \<Rightarrow> networkCall list
     \<Rightarrow> networkCall list \<times> (error + unit)" where
  "uploadArtifactToS3 readFileSync storage fileName resp calls =
     (case readFileSync fileName of
        None \<Rightarrow> (calls, Inl (Error uploadFailedMessage))
      | Some body \<Rightarrow>
          let calls' = calls @ [PutCall (uploadUrl resp) body (requestHeaders resp)] in
          (case requestFetchResponse (storage (uploadUrl resp) body (requestHeaders resp)) of
             Inl error \<Rightarrow> (calls', Inl (Error uploadFailedMessage))
           | Inr response \<Rightarrow> (calls', Inr ())))"

text \<open>\<open>md5Base64\<close> is the MD5 digest of the Node runtime in base64, a parameter.\<close>

definition getMd5 :: "(string \<Rightarrow> string option) \<Rightarrow> (string \<Rightarrow> string) \<Rightarrow> string \<Rightarrow> error + string" where
  "getMd5 readFileSync md5Base64 fileName =
     (case readFileSync fileName of
        None \<Rightarrow> Inl (FsFailure fileName)
      | Some bytes \<Rightarrow> Inr (md5Base64 bytes))"

definition getPresignedUrlAndUpload ::
  "(string \<Rightarrow> string option) \<Rightarrow> (string \<Rightarrow> string)
     \<Rightarrow> (CreateUploadUrlRequest \<Rightarrow> error + CreateUploadUrlResponse)
     \<Rightarrow> (string \<Rightarrow> string \<Rightarrow> (string \<times> string) list \<Rightarrow> putOutcome)
     \<Rightarrow> Truncation \<Rightarrow> networkCall list
     \<Rightarrow> networkCall list \<times> (error + ArtifactMap)" where
  "getPresignedUrlAndUpload readFileSync md5Base64 createUploadUrl storage truncation calls =
     (if zipFilePath truncation = '''' then
        (calls, Inl (Error ''Truncation failure: can't find valid source zip.''))
      else
        (case getMd5 readFileSync md5Base64 (zipFilePath truncation) of
           Inl e \<Rightarrow> (calls, Inl e)
         | Inr digest \<Rightarrow>
             let srcReq = \<lparr> contentMd5 = digest, artifactType = ''SourceCode'' \<rparr>;
                 calls' = calls @ [CreateUploadUrlCall srcReq]
             in (case createUploadUrl srcReq of
                   Inl e \<Rightarrow> (calls', Inl e)
                 | Inr srcResp \<Rightarrow>
                    (case uploadArtifactToS3 readFileSync storage (zipFilePath truncation) srcResp calls' of
                       (calls'', Inl e) \<Rightarrow> (calls'', Inl e)
                     | (calls'', Inr _) \<Rightarrow> (calls'', Inr [(''SourceCode'', uploadId srcResp)])))))"

section \<open>User-facing error messages: \<^verbatim>\<open>createUserFacingErrorMessage\<close>\<close>

text \<open>
  \<^verbatim>\<open>String.prototype.includes\<close>: the search string occurs in the string as a contiguous
  run of characters.
\<close>

fun stringIncludes :: "string \<Rightarrow> string \<Rightarrow> bool" where
  "stringIncludes [] searchString = (searchString = [])"
| "stringIncludes (c # rest) searchString =
     (prefix searchString (c # rest) \<or> stringIncludes rest searchString)"

definition denyListedErrors :: "string list" where
  "denyListedErrors = [''Deserialization error'']"

text \<open>\<open>featureName\<close> is a constant of \<^verbatim>\<open>weaverbird/constants\<close>, a parameter.\<close>

definition createUserFacingErrorMessage :: "string \<Rightarrow> string \<Rightarrow> string" where
  "createUserFacingErrorMessage featureName message =
     (if list_ex (\<lambda>err. stringIncludes message err) denyListedErrors
      then featureName @ '' API request failed''
      else message)"

section \<open>Notions used to state the properties\<close>

text \<open>The issues stored in the map under a key, none when the key is absent.\<close>

definition stored :: "('k, 'v list) jsMap \<Rightarrow> 'k \<Rightarrow> 'v list" where
  "stored m k = (case map_of m k of None \<Rightarrow> [] | Some l \<Rightarrow> l)"

text \<open>The aggregated issue that the second loop builds from an entry of the map.\<close>

definition aggregateOf :: "(string list \<Rightarrow> string) \<Rightarrow> string \<Rightarrow> string \<times> ('r, 's) RawCodeScanIssue list \<Rightarrow> ('r, 's) AggregatedCodeScanIssue" where
  "aggregateOf pathJoin projectPath entry =
     \<lparr> AggregatedCodeScanIssue.filePath = pathJoin [projectPath, ''..'', fst entry],
       AggregatedCodeScanIssue.issues = map toCodeScanIssue (snd entry) \<rparr>"

text \<open>The entry's resolved path is a regular file.\<close>

definition onDisk :: "(string list \<Rightarrow> string) \<Rightarrow> fileSystem \<Rightarrow> string \<Rightarrow> string \<times> 'v \<Rightarrow> bool" where
  "onDisk pathJoin fs projectPath entry = (fs (pathJoin [projectPath, ''..'', fst entry]) = Some RegularFile)"

section \<open>Sample data\<close>

text \<open>
  Findings, pages, a workspace \<^verbatim>\<open>/ws\<close> with the project \<^verbatim>\<open>/ws/proj\<close> and the files
  \<^verbatim>\<open>/ws/a.py\<close> and \<^verbatim>\<open>/ws/b.py\<close>, and \<^verbatim>\<open>path.join\<close> for that project: joining the project
  path, \<^verbatim>\<open>..\<close> and a plain file name gives the file in \<^verbatim>\<open>/ws\<close>.
\<close>

definition finding :: "string \<Rightarrow> int \<Rightarrow> int \<Rightarrow> string \<Rightarrow> (unit, unit) RawCodeScanIssue" where
  "finding path start end name =
     \<lparr> RawCodeScanIssue.filePath = path,
       RawCodeScanIssue.startLine = start,
       RawCodeScanIssue.endLine = end,
       RawCodeScanIssue.title = name,
       RawCodeScanIssue.description = \<lparr> text = ''details'' \<rparr>,
       RawCodeScanIssue.detectorId = ''detector-id'',
       RawCodeScanIssue.detectorName = ''detector'',
       RawCodeScanIssue.findingId = ''finding-id'',
       RawCodeScanIssue.ruleId = None,
       RawCodeScanIssue.relatedVulnerabilities = [],
       RawCodeScanIssue.severity = ''High'',
       RawCodeScanIssue.remediation =
         \<lparr> Remediation.recommendation = (), Remediation.suggestedFixes = () \<rparr> \<rparr>"

definition parsePages :: "string \<Rightarrow> (unit, unit) RawCodeScanIssue list option" where
  "parsePages json =
     (if json = ''page-ab'' then
        Some [finding ''a.py'' 1 2 ''first'', finding ''b.py'' 3 4 ''second'', finding ''a.py'' 5 6 ''third'']
      else if json = ''page-a'' then Some [finding ''a.py'' 1 2 ''first'']
      else if json = ''page-b'' then Some [finding ''b.py'' 3 4 ''second'']
      else if json = ''page-gone'' then
        Some [finding ''a.py'' 1 2 ''first'', finding ''gone.py'' 1 1 ''fourth'']
      else None)"

definition pathJoinWs :: "string list \<Rightarrow> string" where
  "pathJoinWs parts = ''/ws/'' @ last parts"

definition fsWs :: fileSystem where
  "fsWs p = (if p = ''/ws/a.py'' \<or> p = ''/ws/b.py'' then Some RegularFile
             else if p = ''/ws'' \<or> p = ''/ws/proj'' then Some Directory else None)"

definition onePage :: "string \<Rightarrow> string \<Rightarrow> error + response list" where
  "onePage jobId schema = Inr [CodeScanFindings ''page-ab'']"

definition twoPages :: "string \<Rightarrow> string \<Rightarrow> error + response list" where
  "twoPages jobId schema = Inr [CodeScanFindings ''page-a'', CodeAnalysisFindings ''page-b'']"

text \<open>
  A packaged archive on disk, a digest, a service that hands out an upload destination,
  and three storage endpoints: one that refuses the PUT, one that cannot be reached and
  one that accepts it.
\<close>

definition zipOnDisk :: "string \<Rightarrow> string option" where
  "zipOnDisk fileName = (if fileName = ''/tmp/src.zip'' then Some ''PK-bytes'' else None)"

definition sampleDigest :: "string \<Rightarrow> string" where
  "sampleDigest bytes = ''digest-of-'' @ bytes"

definition sampleCreateUploadUrl :: "CreateUploadUrlRequest \<Rightarrow> error + CreateUploadUrlResponse" where
  "sampleCreateUploadUrl req =
     Inr \<lparr> uploadId = ''upload-1'', uploadUrl = ''https://bucket.example/key'',
           requestHeaders = [(''Content-MD5'', contentMd5 req)] \<rparr>"

definition sampleUploadResponse :: CreateUploadUrlResponse where
  "sampleUploadResponse =
     \<lparr> uploadId = ''upload-1'', uploadUrl = ''https://bucket.example/key'',
       requestHeaders = [(''Content-MD5'', ''digest-of-PK-bytes'')] \<rparr>"

definition storageForbidden :: "string \<Rightarrow> string \<Rightarrow> (string \<times> string) list \<Rightarrow> putOutcome" where
  "storageForbidden url body headers = NonSuccess 403 ''Forbidden''"

definition storageUnreachable :: "string \<Rightarrow> string \<Rightarrow> (string \<times> string) list \<Rightarrow> putOutcome" where
  "storageUnreachable url body headers = NetworkError ''getaddrinfo ENOTFOUND bucket.example''"

definition storageOk :: "string \<Rightarrow> string \<Rightarrow> (string \<times> string) list \<Rightarrow> putOutcome" where
  "storageOk url body headers = Success 200 ''OK''"

section \<open>Properties of the poller\<close>

lemma pollLoop_cancelled_top:
  "isCancelling (2 * n) \<Longrightarrow>
   pollLoop isCancelling getCodeScan interval timeout jobId n timer slept
     = Some (slept, Inl CodeScanStoppedError)"
  by (subst pollLoop.simps) (simp add: throwIfCancelled_def)

lemma pollLoop_rejected:
  "\<not> isCancelling (2 * n) \<Longrightarrow> getCodeScan jobId n = Inl e \<Longrightarrow>
   pollLoop isCancelling getCodeScan interval timeout jobId n timer slept
     = Some (slept, Inl e)"
  by (subst pollLoop.simps) (simp add: throwIfCancelled_def)

lemma pollLoop_done:
  "\<not> isCancelling (2 * n) \<Longrightarrow> getCodeScan jobId n = Inr status \<Longrightarrow> status \<noteq> ''Pending'' \<Longrightarrow>
   pollLoop isCancelling getCodeScan interval timeout jobId n timer slept
     = Some (slept, Inr status)"
  by (subst pollLoop.simps) (simp add: throwIfCancelled_def)

lemma pollLoop_cancelled_mid:
  "\<not> isCancelling (2 * n) \<Longrightarrow> getCodeScan jobId n = Inr ''Pending'' \<Longrightarrow>
   isCancelling (2 * n + 1) \<Longrightarrow>
   pollLoop isCancelling getCodeScan interval timeout jobId n timer slept
     = Some (slept, Inl CodeScanStoppedError)"
  by (subst pollLoop.simps) (simp add: throwIfCancelled_def)

lemma pollLoop_timeout:
  "\<not> isCancelling (2 * n) \<Longrightarrow> getCodeScan jobId n = Inr ''Pending'' \<Longrightarrow>
   \<not> isCancelling (2 * n + 1) \<Longrightarrow> timer + interval > timeout \<Longrightarrow>
   pollLoop isCancelling getCodeScan interval timeout jobId n timer slept
     = Some (slept @ [interval * 1000], Inl (Error ''Scan job timeout.''))"
  by (subst pollLoop.simps) (simp add: throwIfCancelled_def)

lemma pollLoop_again:
  "\<not> isCancelling (2 * n) \<Longrightarrow> getCodeScan jobId n = Inr ''Pending'' \<Longrightarrow>
   \<not> isCancelling (2 * n + 1) \<Longrightarrow> timer + interval \<le> timeout \<Longrightarrow>
   pollLoop isCancelling getCodeScan interval timeout jobId n timer slept
     = pollLoop isCancelling getCodeScan interval timeout jobId (Suc n) (timer + interval)
         (slept @ [interval * 1000])"
  by (subst pollLoop.simps) (simp add: throwIfCancelled_def)

lemma pollLoop_returns_aux:
  assumes run: "pollLoop isCancelling getCodeScan interval timeout jobId n timer slept = Some y"
  shows "\<forall>sl s. y = (sl, Inr s) \<longrightarrow> s \<noteq> ''Pending'' \<and>
   (\<exists>m\<ge>n. getCodeScan jobId m = Inr s \<and> (\<forall>i. n \<le> i \<and> i < m \<longrightarrow> getCodeScan jobId i = Inr ''Pending''))"
proof -
  let ?Q = "\<lambda>(c :: nat \<Rightarrow> bool) (g :: string \<Rightarrow> nat \<Rightarrow> error + string) (I :: int) (T :: int)
              (j :: string) (n :: nat) (t :: int) (sl0 :: int list) (y :: int list \<times> (error + string)).
      \<forall>sl s. y = (sl, Inr s) \<longrightarrow> s \<noteq> ''Pending'' \<and>
        (\<exists>m\<ge>n. g j m = Inr s \<and> (\<forall>i. n \<le> i \<and> i < m \<longrightarrow> g j i = Inr ''Pending''))"
  have "?Q isCancelling getCodeScan interval timeout jobId n timer slept y"
  proof (rule pollLoop.raw_induct [where P = ?Q, OF _ run], intro allI impI)
    fix f c g I T j n t sl0 y sl s
    assume IH: "\<And>c g I T j n t sl0 y. f c g I T j n t sl0 = Some y \<Longrightarrow> ?Q c g I T j n t sl0 y"
      and body: "(case throwIfCancelled c (2 * n) of
        Inl e \<Rightarrow> Some (sl0, Inl e)
      | Inr _ \<Rightarrow>
         (case g j n of
            Inl e \<Rightarrow> Some (sl0, Inl e)
          | Inr status \<Rightarrow>
              if status \<noteq> ''Pending'' then Some (sl0, Inr status)
              else
               (case throwIfCancelled c (2 * n + 1) of
                  Inl e \<Rightarrow> Some (sl0, Inl e)
                | Inr _ \<Rightarrow>
                    let slept' = sl0 @ [I * 1000];
                        timer' = t + I
                    in if timer' > T
                       then Some (slept', Inl (Error ''Scan job timeout.''))
                       else f c g I T j
                              (Suc n) timer' slept'))) = Some y"
      and y: "y = (sl, Inr s)"
    show "s \<noteq> ''Pending'' \<and>
        (\<exists>m\<ge>n. g j m = Inr s \<and> (\<forall>i. n \<le> i \<and> i < m \<longrightarrow> g j i = Inr ''Pending''))"
    proof (cases "g j n")
      case (Inl e)
      with body y show ?thesis by (simp add: throwIfCancelled_def split: if_splits)
    next
      case (Inr st)
      show ?thesis
      proof (cases "st = ''Pending''")
        case False
        with Inr body y have "s = st" by (simp add: throwIfCancelled_def split: if_splits)
        with False Inr show ?thesis by (intro conjI exI[of _ n]) auto
      next
        case True
        with Inr body y have rec: "f c g I T j (Suc n) (t + I) (sl0 @ [I * 1000]) = Some y"
          by (simp add: throwIfCancelled_def Let_def split: if_splits)
        from IH[OF rec] y obtain m where m: "s \<noteq> ''Pending''" "m \<ge> Suc n" "g j m = Inr s"
          "\<forall>i. Suc n \<le> i \<and> i < m \<longrightarrow> g j i = Inr ''Pending''" by blast
        have "\<forall>i. n \<le> i \<and> i < m \<longrightarrow> g j i = Inr ''Pending''"
        proof (intro allI impI)
          fix i assume "n \<le> i \<and> i < m"
          then show "g j i = Inr ''Pending''"
            using m(4) Inr True by (cases "i = n") auto
        qed
        with m show ?thesis by (intro conjI exI[of _ m]) auto
      qed
    qed
  qed
  then show ?thesis .
qed

lemma pollLoop_total:
  "0 < interval \<Longrightarrow> \<exists>y. pollLoop isCancelling getCodeScan interval timeout jobId n timer slept = Some y"
proof (induction "nat (timeout + 1 - timer)" arbitrary: n timer slept rule: less_induct)
  case less
  show ?case
  proof (cases "isCancelling (2 * n)")
    case True then show ?thesis by (simp add: pollLoop_cancelled_top)
  next
    case nc: False
    show ?thesis
    proof (cases "getCodeScan jobId n")
      case (Inl e) with nc show ?thesis by (simp add: pollLoop_rejected)
    next
      case (Inr st)
      show ?thesis
      proof (cases "st = ''Pending''")
        case False with nc Inr show ?thesis by (simp add: pollLoop_done)
      next
        case True
        show ?thesis
        proof (cases "isCancelling (2 * n + 1)")
          case True with nc Inr \<open>st = ''Pending''\<close> show ?thesis by (simp add: pollLoop_cancelled_mid)
        next
          case nc2: False
          show ?thesis
          proof (cases "timer + interval > timeout")
            case True with nc nc2 Inr \<open>st = ''Pending''\<close> show ?thesis by (simp add: pollLoop_timeout)
          next
            case False
            then have le: "timer + interval \<le> timeout" by simp
            have "nat (timeout + 1 - (timer + interval)) < nat (timeout + 1 - timer)"
              using le less.prems by linarith
            from less.hyps[OF this less.prems] 
            show ?thesis using nc nc2 Inr \<open>st = ''Pending''\<close> le by (simp add: pollLoop_again)
          qed
        qed
      qed
    qed
  qed
qed


lemma pollLoop_stops_at_checkpoint:
  assumes "isCancelling k"
  shows "n \<le> k div 2 \<Longrightarrow>
    (\<forall>i. n \<le> i \<and> i < (k + 1) div 2 \<longrightarrow> getCodeScan jobId i = Inr ''Pending'') \<Longrightarrow>
    (\<forall>m. 1 \<le> m \<and> n + m \<le> k div 2 \<longrightarrow> timer + int m * interval \<le> timeout) \<Longrightarrow>
    \<exists>sl. pollLoop isCancelling getCodeScan interval timeout jobId n timer slept
            = Some (sl, Inl CodeScanStoppedError)"
proof (induction "k div 2 - n" arbitrary: n timer slept)
  case 0
  then have n: "n = k div 2" by simp
  show ?case
  proof (cases "isCancelling (2 * n)")
    case True then show ?thesis by (simp add: pollLoop_cancelled_top)
  next
    case False
    with assms n have odd: "k = 2 * n + 1" by (cases "even k") (auto elim: oddE)
    then have "n < (k + 1) div 2" by simp
    with 0 have "getCodeScan jobId n = Inr ''Pending''" by simp
    with False odd assms show ?thesis by (simp add: pollLoop_cancelled_mid)
  qed
next
  case (Suc d)
  then have lt: "n < k div 2" by simp
  then have "n < (k + 1) div 2" by linarith
  with Suc.prems have pend: "getCodeScan jobId n = Inr ''Pending''" by simp
  show ?case
  proof (cases "isCancelling (2 * n) \<or> isCancelling (2 * n + 1)")
    case True
    with pend show ?thesis
      by (cases "isCancelling (2 * n)") (simp_all add: pollLoop_cancelled_top pollLoop_cancelled_mid)
  next
    case False
    from Suc.prems(3) lt have le: "timer + interval \<le> timeout"
      by (auto dest: spec[of _ 1])
    have d: "d = k div 2 - Suc n" using Suc.hyps(2) by simp
    have a: "Suc n \<le> k div 2" using lt by simp
    have b: "\<forall>i. Suc n \<le> i \<and> i < (k + 1) div 2 \<longrightarrow> getCodeScan jobId i = Inr ''Pending''"
      using Suc.prems(2) by simp
    have c: "\<forall>m. 1 \<le> m \<and> Suc n + m \<le> k div 2 \<longrightarrow> timer + interval + int m * interval \<le> timeout"
    proof (intro allI impI)
      fix m assume "1 \<le> m \<and> Suc n + m \<le> k div 2"
      then have "1 \<le> Suc m \<and> n + Suc m \<le> k div 2" by simp
      with Suc.prems(3) have "timer + int (Suc m) * interval \<le> timeout" by blast
      then show "timer + interval + int m * interval \<le> timeout" by (simp add: algebra_simps)
    qed
    from Suc.hyps(1)[OF d a b c] False pend le show ?thesis
      by (simp add: pollLoop_again)
  qed
qed

text \<open>
  C2. When the service reports Pending twice and then Completed and the cancellation
  flag is never set, the poller sleeps exactly twice, each time for the poll interval
  (in milliseconds), and returns the string "Completed". The two constants are
  parameters here; the run reaches the third query when the timeout is at least one
  and at least two poll intervals.
\<close>

theorem pollScanJobStatus_pending_twice:
  assumes "getCodeScan jobId 0 = Inr ''Pending''"
    and "getCodeScan jobId 1 = Inr ''Pending''"
    and "getCodeScan jobId 2 = Inr ''Completed''"
    and "\<forall>k. \<not> isCancelling k"
    and "interval \<le> timeout" and "2 * interval \<le> timeout"
  shows "pollScanJobStatus isCancelling getCodeScan interval timeout jobId
           = Some ([interval * 1000, interval * 1000], Inr ''Completed'')"
proof -
  have nc: "\<And>k. \<not> isCancelling k" using assms(4) by simp
  have "pollLoop isCancelling getCodeScan interval timeout jobId 0 0 []
          = pollLoop isCancelling getCodeScan interval timeout jobId (Suc 0) (0 + interval)
              ([] @ [interval * 1000])"
    using assms(1,5) by (intro pollLoop_again) (simp_all add: nc)
  also have "\<dots> = pollLoop isCancelling getCodeScan interval timeout jobId (Suc (Suc 0))
                     (0 + interval + interval) (([] @ [interval * 1000]) @ [interval * 1000])"
    using assms(2,6) by (intro pollLoop_again) (simp_all add: nc)
  also have "\<dots> = Some (([] @ [interval * 1000]) @ [interval * 1000], Inr ''Completed'')"
    using assms(3) by (intro pollLoop_done) (simp_all add: nc numeral_2_eq_2)
  finally show ?thesis by (simp add: pollScanJobStatus_def)
qed

theorem pollScanJobStatus_pending_twice_witness:
  "pollScanJobStatus neverCancelled twicePending 1 50 ''job''
     = Some ([1000, 1000], Inr ''Completed'')"
  using pollScanJobStatus_pending_twice
          [of twicePending "''job''" neverCancelled 1 50]
  by (simp add: twicePending_def neverCancelled_def)

text \<open>
  C10. Whenever the poller returns normally, the string it returns is not "Pending",
  and it is the first status other than "Pending" that the service reported: some
  query answered it, and every query before that one answered "Pending".
\<close>

theorem pollScanJobStatus_returns_first_non_pending:
  assumes "pollScanJobStatus isCancelling getCodeScan interval timeout jobId
             = Some (slept, Inr status)"
  shows "status \<noteq> ''Pending'' \<and>
         (\<exists>m. getCodeScan jobId m = Inr status \<and>
              (\<forall>i<m. getCodeScan jobId i = Inr ''Pending''))"
  using pollLoop_returns_aux [OF assms [unfolded pollScanJobStatus_def]] by auto

theorem pollScanJobStatus_returns_first_non_pending_witness:
  "pollScanJobStatus neverCancelled twicePending 1 50 ''job''
     = Some ([1000, 1000], Inr ''Completed'') \<and>
   ''Completed'' \<noteq> ''Pending'' \<and>
   (\<exists>m. twicePending ''job'' m = Inr ''Completed'' \<and>
        (\<forall>i<m. twicePending ''job'' i = Inr ''Pending''))"
proof -
  have run: "pollScanJobStatus neverCancelled twicePending 1 50 ''job''
               = Some ([1000, 1000], Inr ''Completed'')"
    by code_simp
  from pollScanJobStatus_returns_first_non_pending [OF run] run show ?thesis by simp
qed

text \<open>
  C1, as stated, fails. The service answers Pending three times, the interval is 1 and
  the timeout is 2. The flag is false at the five checkpoints of the first three
  iterations and is set during the third sleep, so it is true at instant 6, before any
  status other than Pending was seen. When the third sleep resumes, the elapsed time 3
  exceeds the timeout, and the poller throws the timeout error before it reads the
  flag again.
\<close>

theorem pollScanJobStatus_cancelled_in_last_sleep_counterexample:
  "cancelledInThirdSleep 6 \<and>
   alwaysPending ''job'' 0 = Inr ''Pending'' \<and>
   alwaysPending ''job'' 1 = Inr ''Pending'' \<and>
   alwaysPending ''job'' 2 = Inr ''Pending'' \<and>
   pollScanJobStatus cancelledInThirdSleep alwaysPending 1 2 ''job''
     = Some ([1000, 1000, 1000], Inl (Error ''Scan job timeout.''))"
  by (simp add: pollScanJobStatus_def pollLoop.simps cancelledInThirdSleep_def
        alwaysPending_def throwIfCancelled_def)

text \<open>
  C1, amended. Let the flag be true at instant \<open>k\<close>, let every status query issued
  before instant \<open>k\<close> (there are \<open>(k + 1) div 2\<close> of them) answer Pending, and let the
  elapsed time after each of the \<open>k div 2\<close> sleeps before instant \<open>k\<close> be within the
  timeout. Then the poller throws the scan-stopped error, and so does not throw the
  timeout error.
\<close>

theorem pollScanJobStatus_cancelled_at_checkpoint:
  assumes "isCancelling k"
    and "\<forall>i < (k + 1) div 2. getCodeScan jobId i = Inr ''Pending''"
    and "\<forall>m. 1 \<le> m \<and> m \<le> k div 2 \<longrightarrow> int m * interval \<le> timeout"
  shows "\<exists>slept. pollScanJobStatus isCancelling getCodeScan interval timeout jobId
           = Some (slept, Inl CodeScanStoppedError)"
  unfolding pollScanJobStatus_def
  using assms by (intro pollLoop_stops_at_checkpoint [of isCancelling k]) simp_all

theorem pollScanJobStatus_cancelled_at_checkpoint_witness:
  "cancelledInSecondQuery 3 \<and>
   alwaysPending ''job'' 0 = Inr ''Pending'' \<and>
   alwaysPending ''job'' 1 = Inr ''Pending'' \<and>
   int 1 * 1 \<le> (50 :: int) \<and>
   (\<exists>slept. pollScanJobStatus cancelledInSecondQuery alwaysPending 1 50 ''job''
      = Some (slept, Inl CodeScanStoppedError))"
proof -
  have a: "cancelledInSecondQuery 3" by (simp add: cancelledInSecondQuery_def)
  have b: "\<forall>i < (3 + 1) div 2. alwaysPending ''job'' i = Inr ''Pending''"
    by (simp add: alwaysPending_def)
  have c: "\<forall>m. 1 \<le> m \<and> m \<le> 3 div 2 \<longrightarrow> int m * 1 \<le> (50 :: int)" by simp
  from pollScanJobStatus_cancelled_at_checkpoint
         [of cancelledInSecondQuery 3 alwaysPending "''job''" 1 50, OF a b c] a
  show ?thesis by (simp add: alwaysPending_def)
qed

section \<open>Properties of the aggregator\<close>

lemma stored_Nil: "stored [] k = []"
  by (simp add: stored_def)

lemma mapSet_keys:
  "map fst (mapSet m k v) = (if k \<in> set (map fst m) then map fst m else map fst m @ [k])"
  by (induction m) force+

lemma mapSet_map_of:
  "map_of (mapSet m k v) k' = (if k' = k then Some v else map_of m k')"
  by (induction m) auto

lemma addIssue_keys:
  "map fst (addIssue m i) =
     (if RawCodeScanIssue.filePath i \<in> set (map fst m) then map fst m
      else map fst m @ [RawCodeScanIssue.filePath i])"
  by (simp add: addIssue_def mapHas_def mapGet_def mapSet_keys split: option.splits)

lemma addIssue_stored:
  "stored (addIssue m i) k = stored m k @ (if RawCodeScanIssue.filePath i = k then [i] else [])"
  by (auto simp: addIssue_def mapHas_def mapGet_def mapSet_map_of stored_def split: option.splits)

lemma groupIssues_distinct:
  "distinct (map fst m) \<Longrightarrow> distinct (map fst (groupIssues m xs))"
  by (induction xs arbitrary: m) (simp_all add: addIssue_keys)

lemma addIssue_key_set:
  "fst ` set (addIssue m i) = insert (RawCodeScanIssue.filePath i) (fst ` set m)"
proof -
  have "set (map fst (addIssue m i)) = insert (RawCodeScanIssue.filePath i) (set (map fst m))"
    unfolding addIssue_keys by auto
  then show ?thesis by simp
qed

lemma groupIssues_keys:
  "fst ` set (groupIssues m xs) = fst ` set m \<union> RawCodeScanIssue.filePath ` set xs"
  by (induction xs arbitrary: m) (simp_all add: addIssue_key_set)

lemma groupIssues_stored:
  "stored (groupIssues m xs) k = stored m k @ filter (\<lambda>i. RawCodeScanIssue.filePath i = k) xs"
  by (induction xs arbitrary: m) (auto simp: addIssue_stored)

lemma distinct_entries_stored:
  assumes "distinct (map fst m)"
  shows "map (\<lambda>k. (k, stored m k)) (map fst m) = m"
proof -
  have "\<And>e. e \<in> set m \<Longrightarrow> (fst e, stored m (fst e)) = e"
  proof -
    fix e assume "e \<in> set m"
    then have "(fst e, snd e) \<in> set m" by simp
    with assms have "map_of m (fst e) = Some (snd e)" by (simp only: map_of_eq_Some_iff)
    then show "(fst e, stored m (fst e)) = e" by (simp add: stored_def)
  qed
  then show ?thesis by (simp add: map_idI)
qed

lemma aggregateIssues_eq:
  "aggregateIssues pathJoin fs projectPath m out =
     Inr (out @ map (aggregateOf pathJoin projectPath) (filter (onDisk pathJoin fs projectPath) m))"
  by (induction m arbitrary: out)
     (auto simp: existsSync_def statSync_def isFile_def Let_def aggregateOf_def onDisk_def
           split: option.splits)

lemma mapToAggregatedList_eq:
  "parse json = Some xs \<Longrightarrow>
   mapToAggregatedList parse pathJoin fs m out json projectPath =
     Inr (groupIssues m xs,
          out @ map (aggregateOf pathJoin projectPath)
                  (filter (onDisk pathJoin fs projectPath) (groupIssues m xs)))"
  by (simp add: mapToAggregatedList_def aggregateIssues_eq Let_def)

lemma emitted_has_key:
  assumes "key \<in> fst ` set m" and "fs (pathJoin [projectPath, ''..'', key]) = Some RegularFile"
  shows "1 \<le> length (filter (\<lambda>a. AggregatedCodeScanIssue.filePath a = pathJoin [projectPath, ''..'', key])
                         (map (aggregateOf pathJoin projectPath) (filter (onDisk pathJoin fs projectPath) m)))"
proof -
  from assms(1) obtain v where "(key, v) \<in> set m" by auto
  with assms(2) have "aggregateOf pathJoin projectPath (key, v)
      \<in> set (filter (\<lambda>a. AggregatedCodeScanIssue.filePath a = pathJoin [projectPath, ''..'', key])
                         (map (aggregateOf pathJoin projectPath) (filter (onDisk pathJoin fs projectPath) m)))"
    by (auto simp: onDisk_def aggregateOf_def intro!: image_eqI [where x = "(key, v)"])
  then have "0 < length (filter (\<lambda>a. AggregatedCodeScanIssue.filePath a = pathJoin [projectPath, ''..'', key])
                         (map (aggregateOf pathJoin projectPath) (filter (onDisk pathJoin fs projectPath) m)))"
    by (rule length_pos_if_in_set)
  then show ?thesis by linarith
qed

lemma forEachIssues_key_present:
  assumes "fs (pathJoin [projectPath, ''..'', key]) = Some RegularFile"
  shows "\<forall>json \<in> set pages. parse json \<noteq> None \<Longrightarrow> key \<in> fst ` set m \<Longrightarrow>
    \<exists>m' out'. forEachIssues parse pathJoin fs projectPath m out pages = Inr (m', out') \<and>
      length (filter (\<lambda>a. AggregatedCodeScanIssue.filePath a = pathJoin [projectPath, ''..'', key]) out)
        + length pages
      \<le> length (filter (\<lambda>a. AggregatedCodeScanIssue.filePath a = pathJoin [projectPath, ''..'', key]) out')"
proof (induction pages arbitrary: m out)
  case Nil
  then show ?case by simp
next
  case (Cons json pages)
  from Cons.prems(1) obtain xs where xs: "parse json = Some xs" by auto
  let ?m1 = "groupIssues m xs"
  let ?out1 = "out @ map (aggregateOf pathJoin projectPath) (filter (onDisk pathJoin fs projectPath) ?m1)"
  have key1: "key \<in> fst ` set ?m1" using Cons.prems(2) by (simp add: groupIssues_keys)
  have rest: "\<forall>json \<in> set pages. parse json \<noteq> None" using Cons.prems(1) by simp
  from Cons.IH [OF rest key1, where out = ?out1] obtain m' out' where
    run: "forEachIssues parse pathJoin fs projectPath ?m1 ?out1 pages = Inr (m', out')" and
    cnt: "length (filter (\<lambda>a. AggregatedCodeScanIssue.filePath a = pathJoin [projectPath, ''..'', key]) ?out1)
        + length pages
      \<le> length (filter (\<lambda>a. AggregatedCodeScanIssue.filePath a = pathJoin [projectPath, ''..'', key]) out')"
    by blast
  have "forEachIssues parse pathJoin fs projectPath m out (json # pages) = Inr (m', out')"
    using run by (simp add: mapToAggregatedList_eq [where parse = parse and json = json and xs = xs, OF xs])
  moreover have "length (filter (\<lambda>a. AggregatedCodeScanIssue.filePath a = pathJoin [projectPath, ''..'', key]) out)
        + length (json # pages)
      \<le> length (filter (\<lambda>a. AggregatedCodeScanIssue.filePath a = pathJoin [projectPath, ''..'', key]) out')"
    using cnt emitted_has_key [where fs = fs and pathJoin = pathJoin and projectPath = projectPath, OF key1 assms] by simp
  ultimately show ?case by blast
qed

lemma forEachIssues_key_from_page:
  assumes "fs (pathJoin [projectPath, ''..'', RawCodeScanIssue.filePath issue]) = Some RegularFile"
  shows "\<forall>json \<in> set pages. parse json \<noteq> None \<Longrightarrow> j < length pages \<Longrightarrow>
    parse (pages ! j) = Some codeScanIssues \<Longrightarrow> issue \<in> set codeScanIssues \<Longrightarrow>
    \<exists>m' out'. forEachIssues parse pathJoin fs projectPath m out pages = Inr (m', out') \<and>
      length (filter (\<lambda>a. AggregatedCodeScanIssue.filePath a
                            = pathJoin [projectPath, ''..'', RawCodeScanIssue.filePath issue]) out)
        + (length pages - j)
      \<le> length (filter (\<lambda>a. AggregatedCodeScanIssue.filePath a
                            = pathJoin [projectPath, ''..'', RawCodeScanIssue.filePath issue]) out')"
proof (induction pages arbitrary: j m out)
  case Nil
  then show ?case by simp
next
  case (Cons json pages)
  let ?P = "\<lambda>a. AggregatedCodeScanIssue.filePath a
                            = pathJoin [projectPath, ''..'', RawCodeScanIssue.filePath issue]"
  from Cons.prems(1) obtain xs where xs: "parse json = Some xs" by auto
  let ?m1 = "groupIssues m xs"
  let ?out1 = "out @ map (aggregateOf pathJoin projectPath) (filter (onDisk pathJoin fs projectPath) ?m1)"
  have rest: "\<forall>json \<in> set pages. parse json \<noteq> None" using Cons.prems(1) by simp
  have step: "forEachIssues parse pathJoin fs projectPath m out (json # pages)
                = forEachIssues parse pathJoin fs projectPath ?m1 ?out1 pages"
    by (simp add: mapToAggregatedList_eq [where parse = parse and json = json and xs = xs, OF xs])
  show ?case
  proof (cases j)
    case 0
    with Cons.prems(3) xs have "xs = codeScanIssues" by simp
    with Cons.prems(4) have key1: "RawCodeScanIssue.filePath issue \<in> fst ` set ?m1"
      by (simp add: groupIssues_keys)
    from forEachIssues_key_present [where fs = fs and pathJoin = pathJoin and projectPath = projectPath and parse = parse and out = ?out1, OF assms rest key1] obtain m' out' where
      run: "forEachIssues parse pathJoin fs projectPath ?m1 ?out1 pages = Inr (m', out')" and
      cnt: "length (filter ?P ?out1) + length pages \<le> length (filter ?P out')"
      by blast
    have "length (filter ?P out) + (length (json # pages) - j) \<le> length (filter ?P out')"
      using cnt emitted_has_key [where fs = fs and pathJoin = pathJoin and projectPath = projectPath, OF key1 assms] 0 by simp
    with run step show ?thesis by auto
  next
    case (Suc j')
    with Cons.prems have j': "j' < length pages" "parse (pages ! j') = Some codeScanIssues" by simp_all
    from Cons.IH [where m = ?m1 and out = ?out1, OF rest j' Cons.prems(4)] obtain m' out' where
      run: "forEachIssues parse pathJoin fs projectPath ?m1 ?out1 pages = Inr (m', out')" and
      cnt: "length (filter ?P ?out1) + (length pages - j') \<le> length (filter ?P out')"
      by blast
    have "length (filter ?P out) + (length (json # pages) - j) \<le> length (filter ?P out')"
      using cnt Suc by simp
    with run step show ?thesis by auto
  qed
qed

text \<open>
  C3. Let the retrieval return a single page, and let the resolved path of every finding
  of the page be a regular file. Then \<^verbatim>\<open>listScanResults\<close> returns one aggregated issue for
  each distinct file path declared in the page and no other: the paths are listed
  without repetition, and the aggregated issue of a path holds the findings of the page
  for that path, normalized, in the order of the page.
\<close>

theorem listScanResults_single_page_groups:
  assumes "collection jobId codeScanFindingsSchema = Inr [resp]"
    and "parse (findingsOf resp) = Some codeScanIssues"
    and "\<forall>issue \<in> set codeScanIssues.
           fs (pathJoin [projectPath, ''..'', RawCodeScanIssue.filePath issue]) = Some RegularFile"
  shows "\<exists>keys. distinct keys \<and> set keys = RawCodeScanIssue.filePath ` set codeScanIssues \<and>
           listScanResults parse pathJoin fs collection jobId codeScanFindingsSchema projectPath
             = Inr (map (\<lambda>key.
                      \<lparr> AggregatedCodeScanIssue.filePath = pathJoin [projectPath, ''..'', key],
                        AggregatedCodeScanIssue.issues =
                          map toCodeScanIssue
                            (filter (\<lambda>issue. RawCodeScanIssue.filePath issue = key) codeScanIssues) \<rparr>)
                    keys)"
proof -
  let ?m = "groupIssues [] codeScanIssues"
  let ?keys = "map fst ?m"
  have d: "distinct ?keys" by (rule groupIssues_distinct) simp
  have k: "set ?keys = RawCodeScanIssue.filePath ` set codeScanIssues"
    using groupIssues_keys [of "[]" codeScanIssues] by simp
  have all: "filter (onDisk pathJoin fs projectPath) ?m = ?m"
  proof (rule filter_True, rule ballI)
    fix e assume "e \<in> set ?m"
    then have "fst e \<in> set ?keys" by simp
    with k assms(3) show "onDisk pathJoin fs projectPath e" by (auto simp: onDisk_def)
  qed
  have st: "\<And>key. stored ?m key = filter (\<lambda>issue. RawCodeScanIssue.filePath issue = key) codeScanIssues"
    by (simp add: groupIssues_stored stored_Nil)
  have "map (aggregateOf pathJoin projectPath) ?m
          = map (aggregateOf pathJoin projectPath) (map (\<lambda>key. (key, stored ?m key)) ?keys)"
    by (simp only: distinct_entries_stored [OF d])
  also have "\<dots> = map (\<lambda>key.
                      \<lparr> AggregatedCodeScanIssue.filePath = pathJoin [projectPath, ''..'', key],
                        AggregatedCodeScanIssue.issues =
                          map toCodeScanIssue
                            (filter (\<lambda>issue. RawCodeScanIssue.filePath issue = key) codeScanIssues) \<rparr>)
                    ?keys"
    by (simp add: aggregateOf_def st)
  finally have out: "map (aggregateOf pathJoin projectPath) ?m = map (\<lambda>key.
                      \<lparr> AggregatedCodeScanIssue.filePath = pathJoin [projectPath, ''..'', key],
                        AggregatedCodeScanIssue.issues =
                          map toCodeScanIssue
                            (filter (\<lambda>issue. RawCodeScanIssue.filePath issue = key) codeScanIssues) \<rparr>)
                    ?keys" .
  have "listScanResults parse pathJoin fs collection jobId codeScanFindingsSchema projectPath
          = Inr (map (aggregateOf pathJoin projectPath) ?m)"
    using assms(1) by (simp add: listScanResults_def mapToAggregatedList_eq [where parse = parse and json = "findingsOf resp" and xs = codeScanIssues, OF assms(2)] all)
  with out d k show ?thesis by (intro exI [of _ ?keys]) simp
qed

theorem listScanResults_single_page_groups_witness:
  "onePage ''job'' ''schema'' = Inr [CodeScanFindings ''page-ab''] \<and>
   parsePages (findingsOf (CodeScanFindings ''page-ab''))
     = Some [finding ''a.py'' 1 2 ''first'', finding ''b.py'' 3 4 ''second'', finding ''a.py'' 5 6 ''third''] \<and>
   fsWs (pathJoinWs [''/ws/proj'', ''..'', RawCodeScanIssue.filePath (finding ''a.py'' 1 2 ''first'')])
     = Some RegularFile \<and>
   fsWs (pathJoinWs [''/ws/proj'', ''..'', RawCodeScanIssue.filePath (finding ''b.py'' 3 4 ''second'')])
     = Some RegularFile \<and>
   fsWs (pathJoinWs [''/ws/proj'', ''..'', RawCodeScanIssue.filePath (finding ''a.py'' 5 6 ''third'')])
     = Some RegularFile \<and>
   (\<exists>keys. distinct keys \<and>
      set keys = RawCodeScanIssue.filePath `
        set [finding ''a.py'' 1 2 ''first'', finding ''b.py'' 3 4 ''second'', finding ''a.py'' 5 6 ''third''] \<and>
      listScanResults parsePages pathJoinWs fsWs onePage ''job'' ''schema'' ''/ws/proj''
        = Inr (map (\<lambda>key.
                 \<lparr> AggregatedCodeScanIssue.filePath = pathJoinWs [''/ws/proj'', ''..'', key],
                   AggregatedCodeScanIssue.issues =
                     map toCodeScanIssue
                       (filter (\<lambda>issue. RawCodeScanIssue.filePath issue = key)
                          [finding ''a.py'' 1 2 ''first'', finding ''b.py'' 3 4 ''second'',
                           finding ''a.py'' 5 6 ''third'']) \<rparr>)
               keys))"
proof -
  have a: "onePage ''job'' ''schema'' = Inr [CodeScanFindings ''page-ab'']"
    by (simp add: onePage_def)
  have b: "parsePages (findingsOf (CodeScanFindings ''page-ab''))
     = Some [finding ''a.py'' 1 2 ''first'', finding ''b.py'' 3 4 ''second'', finding ''a.py'' 5 6 ''third'']"
    by (simp add: parsePages_def)
  have c: "\<forall>issue \<in> set [finding ''a.py'' 1 2 ''first'', finding ''b.py'' 3 4 ''second'', finding ''a.py'' 5 6 ''third''].
      fsWs (pathJoinWs [''/ws/proj'', ''..'', RawCodeScanIssue.filePath issue]) = Some RegularFile"
    by (simp add: finding_def fsWs_def pathJoinWs_def)
  from listScanResults_single_page_groups [where collection = onePage and parse = parsePages and fs = fsWs and pathJoin = pathJoinWs
      and projectPath = "''/ws/proj''" and resp = "CodeScanFindings ''page-ab''" 
      and jobId = "''job''" and codeScanFindingsSchema = "''schema''", OF a b c] a b c
  show ?thesis by simp
qed

lemma listScanResults_single_page_example:
  "listScanResults parsePages pathJoinWs fsWs onePage ''job'' ''schema'' ''/ws/proj''
     = Inr [\<lparr> AggregatedCodeScanIssue.filePath = ''/ws/a.py'',
              AggregatedCodeScanIssue.issues =
                [toCodeScanIssue (finding ''a.py'' 1 2 ''first''),
                 toCodeScanIssue (finding ''a.py'' 5 6 ''third'')] \<rparr>,
            \<lparr> AggregatedCodeScanIssue.filePath = ''/ws/b.py'',
              AggregatedCodeScanIssue.issues = [toCodeScanIssue (finding ''b.py'' 3 4 ''second'')] \<rparr>]"
  by (simp add: listScanResults_def onePage_def mapToAggregatedList_def parsePages_def
        addIssue_def mapHas_def mapGet_def finding_def pathJoinWs_def fsWs_def
        existsSync_def statSync_def isFile_def Let_def)

text \<open>
  C4. Let the retrieval return pages that all parse, and let page \<open>j\<close> (counted from 0)
  hold a finding for a file whose resolved path is a regular file. Then the list that
  \<^verbatim>\<open>listScanResults\<close> returns has at least one aggregated issue with that path for page \<open>j\<close>
  and one more for every later page: at least \<open>length responses - j\<close> in all. With two
  pages and a finding in the first, the same path is returned twice.
\<close>

theorem listScanResults_reemits_earlier_pages:
  assumes "collection jobId codeScanFindingsSchema = Inr responses"
    and "\<forall>r \<in> set responses. parse (findingsOf r) \<noteq> None"
    and "j < length responses"
    and "parse (findingsOf (responses ! j)) = Some codeScanIssues"
    and "issue \<in> set codeScanIssues"
    and "fs (pathJoin [projectPath, ''..'', RawCodeScanIssue.filePath issue]) = Some RegularFile"
  shows "\<exists>aggregatedCodeScanIssueList.
           listScanResults parse pathJoin fs collection jobId codeScanFindingsSchema projectPath
             = Inr aggregatedCodeScanIssueList \<and>
           length responses - j
             \<le> length (filter (\<lambda>a. AggregatedCodeScanIssue.filePath a
                                     = pathJoin [projectPath, ''..'', RawCodeScanIssue.filePath issue])
                         aggregatedCodeScanIssueList)"
proof -
  have a: "\<forall>json \<in> set (map findingsOf responses). parse json \<noteq> None" using assms(2) by simp
  have b: "j < length (map findingsOf responses)" using assms(3) by simp
  have c: "parse (map findingsOf responses ! j) = Some codeScanIssues" using assms(3,4) by simp
  from forEachIssues_key_from_page
         [where parse = parse and pages = "map findingsOf responses" and j = j and m = "[]" and out = "[]"
            and fs = fs and pathJoin = pathJoin and projectPath = projectPath and issue = issue
            and codeScanIssues = codeScanIssues,
          OF assms(6) a b c assms(5)]
  show ?thesis using assms(1) by (auto simp: listScanResults_def)
qed

theorem listScanResults_reemits_earlier_pages_witness:
  "twoPages ''job'' ''schema'' = Inr [CodeScanFindings ''page-a'', CodeAnalysisFindings ''page-b''] \<and>
   parsePages (findingsOf (CodeScanFindings ''page-a'')) \<noteq> None \<and>
   parsePages (findingsOf (CodeAnalysisFindings ''page-b'')) \<noteq> None \<and>
   0 < length [CodeScanFindings ''page-a'', CodeAnalysisFindings ''page-b''] \<and>
   parsePages (findingsOf ([CodeScanFindings ''page-a'', CodeAnalysisFindings ''page-b''] ! 0))
     = Some [finding ''a.py'' 1 2 ''first''] \<and>
   finding ''a.py'' 1 2 ''first'' \<in> set [finding ''a.py'' 1 2 ''first''] \<and>
   fsWs (pathJoinWs [''/ws/proj'', ''..'', RawCodeScanIssue.filePath (finding ''a.py'' 1 2 ''first'')])
     = Some RegularFile \<and>
   (\<exists>aggregatedCodeScanIssueList.
      listScanResults parsePages pathJoinWs fsWs twoPages ''job'' ''schema'' ''/ws/proj''
        = Inr aggregatedCodeScanIssueList \<and>
      length [CodeScanFindings ''page-a'', CodeAnalysisFindings ''page-b''] - 0
        \<le> length (filter (\<lambda>a. AggregatedCodeScanIssue.filePath a
                  = pathJoinWs [''/ws/proj'', ''..'', RawCodeScanIssue.filePath (finding ''a.py'' 1 2 ''first'')])
             aggregatedCodeScanIssueList))"
proof -
  have a: "twoPages ''job'' ''schema'' = Inr [CodeScanFindings ''page-a'', CodeAnalysisFindings ''page-b'']"
    by (simp add: twoPages_def)
  have b: "\<forall>r \<in> set [CodeScanFindings ''page-a'', CodeAnalysisFindings ''page-b'']. parsePages (findingsOf r) \<noteq> None"
    by (simp add: parsePages_def)
  have c: "0 < length [CodeScanFindings ''page-a'', CodeAnalysisFindings ''page-b'']" by simp
  have d: "parsePages (findingsOf ([CodeScanFindings ''page-a'', CodeAnalysisFindings ''page-b''] ! 0))
     = Some [finding ''a.py'' 1 2 ''first'']"
    by (simp add: parsePages_def)
  have e: "finding ''a.py'' 1 2 ''first'' \<in> set [finding ''a.py'' 1 2 ''first'']" by simp
  have f: "fsWs (pathJoinWs [''/ws/proj'', ''..'', RawCodeScanIssue.filePath (finding ''a.py'' 1 2 ''first'')])
     = Some RegularFile"
    by (simp add: finding_def fsWs_def pathJoinWs_def)
  from listScanResults_reemits_earlier_pages [where collection = twoPages and parse = parsePages and fs = fsWs and pathJoin = pathJoinWs
      and projectPath = "''/ws/proj''" and jobId = "''job''" and codeScanFindingsSchema = "''schema''"
      and j = 0 and issue = "finding ''a.py'' 1 2 ''first''"
      and codeScanIssues = "[finding ''a.py'' 1 2 ''first'']"
      and responses = "[CodeScanFindings ''page-a'', CodeAnalysisFindings ''page-b'']", OF a b c d e f]
    a b c d e f
  show ?thesis by simp
qed

lemma listScanResults_two_pages_example:
  "listScanResults parsePages pathJoinWs fsWs twoPages ''job'' ''schema'' ''/ws/proj''
     = Inr [\<lparr> AggregatedCodeScanIssue.filePath = ''/ws/a.py'',
              AggregatedCodeScanIssue.issues = [toCodeScanIssue (finding ''a.py'' 1 2 ''first'')] \<rparr>,
            \<lparr> AggregatedCodeScanIssue.filePath = ''/ws/a.py'',
              AggregatedCodeScanIssue.issues = [toCodeScanIssue (finding ''a.py'' 1 2 ''first'')] \<rparr>,
            \<lparr> AggregatedCodeScanIssue.filePath = ''/ws/b.py'',
              AggregatedCodeScanIssue.issues = [toCodeScanIssue (finding ''b.py'' 3 4 ''second'')] \<rparr>]"
  by (simp add: listScanResults_def twoPages_def mapToAggregatedList_def parsePages_def
        addIssue_def mapHas_def mapGet_def finding_def pathJoinWs_def fsWs_def
        existsSync_def statSync_def isFile_def Let_def)

text \<open>
  C5. For every finding, the normalized start line is the declared start line minus one
  when the declared start line is greater than zero, it is zero when the declared start
  line is zero, it is never negative, and the end line is passed through unchanged.
\<close>

theorem toCodeScanIssue_lines:
  "(RawCodeScanIssue.startLine issue > 0 \<longrightarrow>
      CodeScanIssue.startLine (toCodeScanIssue issue) = RawCodeScanIssue.startLine issue - 1) \<and>
   (RawCodeScanIssue.startLine issue = 0 \<longrightarrow> CodeScanIssue.startLine (toCodeScanIssue issue) = 0) \<and>
   0 \<le> CodeScanIssue.startLine (toCodeScanIssue issue) \<and>
   CodeScanIssue.endLine (toCodeScanIssue issue) = RawCodeScanIssue.endLine issue"
  by (simp add: toCodeScanIssue_def)

theorem toCodeScanIssue_lines_witness:
  "0 < RawCodeScanIssue.startLine (finding ''a.py'' 5 6 ''third'') \<and>
   CodeScanIssue.startLine (toCodeScanIssue (finding ''a.py'' 5 6 ''third'')) = 4 \<and>
   CodeScanIssue.endLine (toCodeScanIssue (finding ''a.py'' 5 6 ''third'')) = 6 \<and>
   RawCodeScanIssue.startLine (finding ''a.py'' 0 0 ''zero'') = 0 \<and>
   CodeScanIssue.startLine (toCodeScanIssue (finding ''a.py'' 0 0 ''zero'')) = 0"
  using toCodeScanIssue_lines [of "finding ''a.py'' 5 6 ''third''"]
        toCodeScanIssue_lines [of "finding ''a.py'' 0 0 ''zero''"]
  by (simp add: finding_def)

text \<open>
  C6. When a page parses, \<^verbatim>\<open>mapToAggregatedList\<close> returns without an error, and every
  aggregated issue it appends belongs to a grouped file path whose resolved path (the
  project path, \<^verbatim>\<open>..\<close> and the key, joined) exists and is a regular file. For a grouped
  file path whose resolved path does not exist, no aggregated issue with that path is
  appended.
\<close>

theorem mapToAggregatedList_only_regular_files:
  assumes "parse json = Some codeScanIssues"
  shows "\<exists>codeScanIssueMap' emitted.
           mapToAggregatedList parse pathJoin fs codeScanIssueMap aggregatedCodeScanIssueList json projectPath
             = Inr (codeScanIssueMap', aggregatedCodeScanIssueList @ emitted) \<and>
           (\<forall>a \<in> set emitted.
              existsSync fs (AggregatedCodeScanIssue.filePath a) \<and>
              statSync fs (AggregatedCodeScanIssue.filePath a) = Inr RegularFile \<and>
              (\<exists>key \<in> fst ` set codeScanIssueMap'.
                 AggregatedCodeScanIssue.filePath a = pathJoin [projectPath, ''..'', key])) \<and>
           (\<forall>key \<in> fst ` set codeScanIssueMap'.
              \<not> existsSync fs (pathJoin [projectPath, ''..'', key]) \<longrightarrow>
              (\<forall>a \<in> set emitted.
                 AggregatedCodeScanIssue.filePath a \<noteq> pathJoin [projectPath, ''..'', key]))"
proof -
  let ?m = "groupIssues codeScanIssueMap codeScanIssues"
  let ?new = "map (aggregateOf pathJoin projectPath) (filter (onDisk pathJoin fs projectPath) ?m)"
  have run: "mapToAggregatedList parse pathJoin fs codeScanIssueMap aggregatedCodeScanIssueList json projectPath
             = Inr (?m, aggregatedCodeScanIssueList @ ?new)"
    using assms by (rule mapToAggregatedList_eq)
  have ok: "\<forall>a \<in> set ?new.
              existsSync fs (AggregatedCodeScanIssue.filePath a) \<and>
              statSync fs (AggregatedCodeScanIssue.filePath a) = Inr RegularFile \<and>
              (\<exists>key \<in> fst ` set ?m.
                 AggregatedCodeScanIssue.filePath a = pathJoin [projectPath, ''..'', key])"
    by (auto simp: aggregateOf_def onDisk_def existsSync_def statSync_def intro!: bexI)
  then have "\<forall>key \<in> fst ` set ?m.
              \<not> existsSync fs (pathJoin [projectPath, ''..'', key]) \<longrightarrow>
              (\<forall>a \<in> set ?new.
                 AggregatedCodeScanIssue.filePath a \<noteq> pathJoin [projectPath, ''..'', key])"
    by metis
  with run ok show ?thesis by blast
qed

theorem mapToAggregatedList_only_regular_files_witness:
  "parsePages ''page-gone'' = Some [finding ''a.py'' 1 2 ''first'', finding ''gone.py'' 1 1 ''fourth''] \<and>
   (\<exists>codeScanIssueMap' emitted.
           mapToAggregatedList parsePages pathJoinWs fsWs [] [] ''page-gone'' ''/ws/proj''
             = Inr (codeScanIssueMap', [] @ emitted) \<and>
           (\<forall>a \<in> set emitted.
              existsSync fsWs (AggregatedCodeScanIssue.filePath a) \<and>
              statSync fsWs (AggregatedCodeScanIssue.filePath a) = Inr RegularFile \<and>
              (\<exists>key \<in> fst ` set codeScanIssueMap'.
                 AggregatedCodeScanIssue.filePath a = pathJoinWs [''/ws/proj'', ''..'', key])) \<and>
           (\<forall>key \<in> fst ` set codeScanIssueMap'.
              \<not> existsSync fsWs (pathJoinWs [''/ws/proj'', ''..'', key]) \<longrightarrow>
              (\<forall>a \<in> set emitted.
                 AggregatedCodeScanIssue.filePath a \<noteq> pathJoinWs [''/ws/proj'', ''..'', key])))"
proof -
  have a: "parsePages ''page-gone'' = Some [finding ''a.py'' 1 2 ''first'', finding ''gone.py'' 1 1 ''fourth'']"
    by (simp add: parsePages_def)
  from mapToAggregatedList_only_regular_files [where parse = parsePages and json = "''page-gone''" and fs = fsWs and pathJoin = pathJoinWs
      and projectPath = "''/ws/proj''" and codeScanIssueMap = "[]" and aggregatedCodeScanIssueList = "[]"
      and codeScanIssues = "[finding ''a.py'' 1 2 ''first'', finding ''gone.py'' 1 1 ''fourth'']", OF a] a
  show ?thesis by blast
qed

lemma mapToAggregatedList_missing_file_example:
  "mapToAggregatedList parsePages pathJoinWs fsWs [] [] ''page-gone'' ''/ws/proj''
     = Inr ([(''a.py'', [finding ''a.py'' 1 2 ''first'']), (''gone.py'', [finding ''gone.py'' 1 1 ''fourth''])],
            [\<lparr> AggregatedCodeScanIssue.filePath = ''/ws/a.py'',
               AggregatedCodeScanIssue.issues = [toCodeScanIssue (finding ''a.py'' 1 2 ''first'')] \<rparr>])"
  by (simp add: mapToAggregatedList_def parsePages_def
        addIssue_def mapHas_def mapGet_def finding_def pathJoinWs_def fsWs_def
        existsSync_def statSync_def isFile_def Let_def)

section \<open>Properties of the upload preparer and the uploader\<close>

text \<open>
  C7. With an empty archive path the upload preparer throws its precondition error at
  once. The log of network calls is returned as it was given: no upload destination is
  requested and nothing is uploaded.
\<close>

theorem getPresignedUrlAndUpload_empty_path:
  assumes "zipFilePath truncation = ''''"
  shows "getPresignedUrlAndUpload readFileSync md5Base64 createUploadUrl storage truncation calls
           = (calls, Inl (Error ''Truncation failure: can't find valid source zip.''))"
  using assms by (simp add: getPresignedUrlAndUpload_def)

theorem getPresignedUrlAndUpload_empty_path_witness:
  "zipFilePath \<lparr> zipFilePath = '''' \<rparr> = '''' \<and>
   getPresignedUrlAndUpload zipOnDisk sampleDigest sampleCreateUploadUrl storageOk
       \<lparr> zipFilePath = '''' \<rparr> []
     = ([], Inl (Error ''Truncation failure: can't find valid source zip.''))"
  using getPresignedUrlAndUpload_empty_path [of "\<lparr> zipFilePath = '''' \<rparr>" zipOnDisk sampleDigest sampleCreateUploadUrl storageOk "[]"]
  by simp

lemma getPresignedUrlAndUpload_example:
  "getPresignedUrlAndUpload zipOnDisk sampleDigest sampleCreateUploadUrl storageOk
       \<lparr> zipFilePath = ''/tmp/src.zip'' \<rparr> []
     = ([CreateUploadUrlCall \<lparr> contentMd5 = ''digest-of-PK-bytes'', artifactType = ''SourceCode'' \<rparr>,
         PutCall ''https://bucket.example/key'' ''PK-bytes'' [(''Content-MD5'', ''digest-of-PK-bytes'')]],
        Inr [(''SourceCode'', ''upload-1'')])"
  by (simp add: getPresignedUrlAndUpload_def getMd5_def zipOnDisk_def sampleDigest_def
        sampleCreateUploadUrl_def uploadArtifactToS3_def storageOk_def Let_def)

text \<open>
  C8. When the archive can be read and the PUT ends in a network error or in a
  non-success response of the storage endpoint, the uploader throws an error whose
  message is the fixed guidance text, whatever the underlying error says, and it has
  made exactly one PUT.
\<close>

theorem uploadArtifactToS3_failure:
  assumes "readFileSync fileName = Some body"
    and "storage (uploadUrl resp) body (requestHeaders resp) = NetworkError msg \<or>
         storage (uploadUrl resp) body (requestHeaders resp) = NonSuccess status statusText"
  shows "uploadArtifactToS3 readFileSync storage fileName resp calls
           = (calls @ [PutCall (uploadUrl resp) body (requestHeaders resp)],
              Inl (Error uploadFailedMessage))"
  using assms by (auto simp: uploadArtifactToS3_def Let_def)

theorem uploadArtifactToS3_failure_witness:
  "zipOnDisk ''/tmp/src.zip'' = Some ''PK-bytes'' \<and>
   storageForbidden (uploadUrl sampleUploadResponse) ''PK-bytes'' (requestHeaders sampleUploadResponse)
     = NonSuccess 403 ''Forbidden'' \<and>
   uploadArtifactToS3 zipOnDisk storageForbidden ''/tmp/src.zip'' sampleUploadResponse []
     = ([PutCall (uploadUrl sampleUploadResponse) ''PK-bytes'' (requestHeaders sampleUploadResponse)],
        Inl (Error uploadFailedMessage)) \<and>
   storageUnreachable (uploadUrl sampleUploadResponse) ''PK-bytes'' (requestHeaders sampleUploadResponse)
     = NetworkError ''getaddrinfo ENOTFOUND bucket.example'' \<and>
   uploadArtifactToS3 zipOnDisk storageUnreachable ''/tmp/src.zip'' sampleUploadResponse []
     = ([PutCall (uploadUrl sampleUploadResponse) ''PK-bytes'' (requestHeaders sampleUploadResponse)],
        Inl (Error uploadFailedMessage))"
proof -
  have a: "zipOnDisk ''/tmp/src.zip'' = Some ''PK-bytes''" by (simp add: zipOnDisk_def)
  have b: "storageForbidden (uploadUrl sampleUploadResponse) ''PK-bytes''
             (requestHeaders sampleUploadResponse) = NonSuccess 403 ''Forbidden''"
    by (simp add: storageForbidden_def)
  have c: "storageUnreachable (uploadUrl sampleUploadResponse) ''PK-bytes''
             (requestHeaders sampleUploadResponse) = NetworkError ''getaddrinfo ENOTFOUND bucket.example''"
    by (simp add: storageUnreachable_def)
  from uploadArtifactToS3_failure
         [where readFileSync = zipOnDisk and storage = storageForbidden
            and resp = sampleUploadResponse and fileName = "''/tmp/src.zip''"
            and body = "''PK-bytes''" and calls = "[]" and msg = "''none''"
            and status = 403 and statusText = "''Forbidden''", OF a disjI2 [OF b]]
       uploadArtifactToS3_failure
         [where readFileSync = zipOnDisk and storage = storageUnreachable
            and resp = sampleUploadResponse and fileName = "''/tmp/src.zip''"
            and body = "''PK-bytes''" and calls = "[]"
            and msg = "''getaddrinfo ENOTFOUND bucket.example''"
            and status = 0 and statusText = "''none''", OF a disjI1 [OF c]]
       a b c
  show ?thesis by simp
qed

text \<open>The other two runs of the uploader: the archive cannot be read, and the PUT succeeds.\<close>

lemma uploadArtifactToS3_unreadable:
  "readFileSync fileName = None \<Longrightarrow>
   uploadArtifactToS3 readFileSync storage fileName resp calls
     = (calls, Inl (Error uploadFailedMessage))"
  by (simp add: uploadArtifactToS3_def)

lemma uploadArtifactToS3_success:
  "readFileSync fileName = Some body \<Longrightarrow>
   storage (uploadUrl resp) body (requestHeaders resp) = Success status statusText \<Longrightarrow>
   uploadArtifactToS3 readFileSync storage fileName resp calls
     = (calls @ [PutCall (uploadUrl resp) body (requestHeaders resp)], Inr ())"
  by (simp add: uploadArtifactToS3_def Let_def)

section \<open>Properties of the error messages\<close>

lemma stringIncludes_sublist: "stringIncludes s searchString \<longleftrightarrow> sublist searchString s"
  by (induction s) (simp_all add: sublist_Cons_right)

text \<open>
  C9. When the message contains a deny-listed string, the result is the feature name
  followed by " API request failed"; when it contains none, the result is the message
  itself.
\<close>

theorem createUserFacingErrorMessage_deny_list:
  "((\<exists>err \<in> set denyListedErrors. sublist err message) \<longrightarrow>
      createUserFacingErrorMessage featureName message = featureName @ '' API request failed'') \<and>
   (\<not> (\<exists>err \<in> set denyListedErrors. sublist err message) \<longrightarrow>
      createUserFacingErrorMessage featureName message = message)"
  by (simp add: createUserFacingErrorMessage_def list_ex_iff stringIncludes_sublist)

theorem createUserFacingErrorMessage_deny_list_witness:
  "(\<exists>err \<in> set denyListedErrors. sublist err ''Model: Deserialization error in response'') \<and>
   createUserFacingErrorMessage ''Amazon Q'' ''Model: Deserialization error in response''
     = ''Amazon Q API request failed'' \<and>
   \<not> (\<exists>err \<in> set denyListedErrors. sublist err ''Access denied'') \<and>
   createUserFacingErrorMessage ''Amazon Q'' ''Access denied'' = ''Access denied''"
proof -
  have a: "\<exists>err \<in> set denyListedErrors. sublist err ''Model: Deserialization error in response''"
    unfolding denyListedErrors_def by code_simp
  have b: "\<not> (\<exists>err \<in> set denyListedErrors. sublist err ''Access denied'')"
    unfolding denyListedErrors_def by code_simp
  from createUserFacingErrorMessage_deny_list [of "''Model: Deserialization error in response''" "''Amazon Q''"]
       createUserFacingErrorMessage_deny_list [of "''Access denied''" "''Amazon Q''"] a b
  show ?thesis by simp
qed


end
